theory Spec2Isabelle
  imports Main "HOL-Library.Word"
begin

section \<open>The IPFS resolve handler of the stargz snapshotter\<close>

text \<open>
  A shallow embedding of \<^verbatim>\<open>cmd/containerd-stargz-grpc/ipfs/resolvehandler.go\<close>.

  The file talks to the outside through sub-processes of the \<^verbatim>\<open>ipfs\<close> command. Each
  such boundary is a parameter of the model: a function from the command line (and, for
  the retried read, from the number of the attempt) to what the sub-process does. The
  Go standard library functions the file calls (\<^verbatim>\<open>io.CopyN\<close>, \<^verbatim>\<open>io.Pipe\<close>,
  \<^verbatim>\<open>strings.Contains\<close>, \<^verbatim>\<open>strings.TrimSuffix\<close>, \<^verbatim>\<open>strconv.ParseInt\<close>,
  \<^verbatim>\<open>fmt.Sprintf\<close>) are written out after their documented behaviour.
\<close>

subsection \<open>Data\<close>

text \<open>Go's \<^verbatim>\<open>int64\<close>: addition wraps, comparisons read the value with \<open>sint\<close>.\<close>

type_synonym int64 = "64 word"

text \<open>A Go \<^verbatim>\<open>string\<close> and a \<^verbatim>\<open>[]byte\<close> are both sequences of bytes.\<close>

type_synonym bytes = "char list"

text \<open>
  The error values that occur: \<^verbatim>\<open>io.EOF\<close>, the \<^verbatim>\<open>fmt.Errorf\<close> of \<^verbatim>\<open>Fetch\<close>
  (with its two numbers), the two errors of \<^verbatim>\<open>strconv\<close>, and any error that comes
  from outside (the operating system, a sub-process, \<^verbatim>\<open>ipfs.GetCID\<close>), named by its
  message.
\<close>

datatype error =
    EOF
  | ErrOffset int64 int64
  | ErrSyntax
  | ErrRange
  | ErrExt string

text \<open>
  \<^verbatim>\<open>type fetcher struct { cid string; size int64 }\<close>; the field \<^verbatim>\<open>size\<close> is written
  \<open>size'\<close>, since \<open>size\<close> is a constant of HOL.
\<close>

record fetcher =
  cid :: string
  size' :: int64

subsection \<open>Library functions\<close>

text \<open>
  \<^verbatim>\<open>fmt.Sprintf("%d", n)\<close>: the decimal digits of \<open>n\<close>, most significant first, with a
  leading minus sign when \<open>n\<close> is negative.
\<close>

definition digit_char :: "nat \<Rightarrow> char" where
  "digit_char d = ''0123456789'' ! (d mod 10)"

fun digits :: "nat \<Rightarrow> string" where
  "digits n = (if n < 10 then [digit_char n] else digits (n div 10) @ [digit_char (n mod 10)])"

declare digits.simps [simp del]

definition fmt_d :: "int \<Rightarrow> string" where
  "fmt_d n = (if n < 0 then CHR ''-'' # digits (nat (- n)) else digits (nat n))"

text \<open>\<^verbatim>\<open>strings.HasPrefix\<close> and \<^verbatim>\<open>strings.Contains\<close>.\<close>

fun HasPrefix :: "string \<Rightarrow> string \<Rightarrow> bool" where
  "HasPrefix s [] = True"
| "HasPrefix [] (p # ps) = False"
| "HasPrefix (c # s) (p # ps) = (c = p \<and> HasPrefix s ps)"

fun Contains :: "string \<Rightarrow> string \<Rightarrow> bool" where
  "Contains [] sub = (sub = [])"
| "Contains (c # s) sub = (HasPrefix (c # s) sub \<or> Contains s sub)"

text \<open>
  \<^verbatim>\<open>io.CopyN(dst, src, n)\<close> where the source holds the bytes \<open>src\<close> and then ends, with
  \<open>src_err\<close> (\<open>None\<close> is end of file), and the destination accepts every write. It
  copies through an \<^verbatim>\<open>io.LimitReader\<close>: for \<open>n \<le> 0\<close> nothing is read and no error is
  returned; when the source has \<open>n\<close> bytes, exactly \<open>n\<close> are copied and the result is
  \<^verbatim>\<open>nil\<close>; when the source ends before that, all of it is copied and the error is the
  source's, or \<^verbatim>\<open>io.EOF\<close> when the source just ended. The result is the bytes written
  (their number is the \<^verbatim>\<open>written\<close> of Go) and the error.
\<close>

definition CopyN :: "bytes \<Rightarrow> error option \<Rightarrow> int \<Rightarrow> bytes \<times> error option" where
  "CopyN src src_err n =
     (if n \<le> 0 then ([], None)
      else if n \<le> int (length src) then (take (nat n) src, None)
      else (src, Some (case src_err of None \<Rightarrow> EOF | Some e \<Rightarrow> e)))"

text \<open>
  The read side of an \<^verbatim>\<open>io.Pipe\<close>, read to its end: the bytes written, then the error
  the write side was closed with. \<^verbatim>\<open>pw.Close()\<close> is \<^verbatim>\<open>pw.CloseWithError(nil)\<close>, and
  \<^verbatim>\<open>CloseWithError\<close> stores \<^verbatim>\<open>io.EOF\<close> for \<^verbatim>\<open>nil\<close>; the reader gets the stored error.
\<close>

record pipe =
  data :: bytes
  fin :: error

definition CloseWithError :: "error option \<Rightarrow> error" where
  "CloseWithError e = (case e of None \<Rightarrow> EOF | Some e' \<Rightarrow> e')"

subsection \<open>The retried ranged read\<close>

text \<open>
  What one \<^verbatim>\<open>ipfs cat\<close> sub-process does, as the copy loop sees it: the bytes its
  standard output yields, how the output ends (\<open>None\<close>: end of file), and the text the
  standard-error buffer holds when the loop reads it after a failed copy.
\<close>

record proc_output =
  stdout :: bytes
  stdout_err :: "error option"
  stderr :: string

text \<open>
  Launching it: \<^verbatim>\<open>cmd.StdoutPipe()\<close> may fail, \<^verbatim>\<open>cmd.Start()\<close> may fail, or the
  process runs.
\<close>

datatype launch = PipeFailed error | StartFailed error | Started proc_output

text \<open>The outside world for one \<^verbatim>\<open>Fetch\<close>: the launch of attempt \<open>i\<close> with a command line.\<close>

type_synonym cat_env = "nat \<Rightarrow> string list \<Rightarrow> launch"

definition maxretry :: nat where
  "maxretry = 100"

definition lock_marker :: string where
  "lock_marker = ''someone else has the lock''"

text \<open>
  \<^verbatim>\<open>exec.Command("ipfs", "cat", fmt.Sprintf("--offset=%d", curoff),
  fmt.Sprintf("--length=%d", size), f.cid)\<close>
\<close>

definition cat_argv :: "int64 \<Rightarrow> int64 \<Rightarrow> string \<Rightarrow> string list" where
  "cat_argv curoff sz c =
     [''ipfs'', ''cat'', ''--offset='' @ fmt_d (sint curoff), ''--length='' @ fmt_d (sint sz), c]"

text \<open>
  One pass through the body of the loop (the closure marked \<^verbatim>\<open>defer scope\<close>): the
  command line it builds, the bytes it writes to the pipe, its two results \<open>cont\<close> and
  \<open>err\<close>, and the value of \<^verbatim>\<open>curoff\<close> when it returns. The sleep of one second before
  a retry and the deferred goroutine that drains and reaps the process change nothing of
  this and are left out.
\<close>

record attempt =
  argv :: "string list"
  copied :: bytes
  cont :: bool
  err :: "error option"
  next_off :: int64

definition copy_attempt :: "cat_env \<Rightarrow> string \<Rightarrow> int64 \<Rightarrow> nat \<Rightarrow> int64 \<Rightarrow> attempt" where
  "copy_attempt exec c sz i curoff =
     (let cmd = cat_argv curoff sz c in
      case exec i cmd of
        PipeFailed e \<Rightarrow>
          \<lparr>argv = cmd, copied = [], cont = False, err = Some e, next_off = curoff\<rparr>
      | StartFailed e \<Rightarrow>
          \<lparr>argv = cmd, copied = [], cont = False, err = Some e, next_off = curoff\<rparr>
      | Started out \<Rightarrow>
          (case CopyN (stdout out) (stdout_err out) (sint sz) of
             (w, Some e) \<Rightarrow>
               if i < maxretry \<and> Contains (stderr out) lock_marker
               then \<lparr>argv = cmd, copied = w, cont = True, err = None,
                      next_off = curoff + of_nat (length w)\<rparr>
               else \<lparr>argv = cmd, copied = w, cont = False, err = Some e, next_off = curoff\<rparr>
           | (w, None) \<Rightarrow>
               \<lparr>argv = cmd, copied = w, cont = False, err = None, next_off = curoff\<rparr>))"

text \<open>
  \<^verbatim>\<open>for i := 0; ; i++\<close>: the passes made, in order. The loop stops after a pass with an
  error or with \<open>cont\<close> false.
\<close>

function retry_loop :: "cat_env \<Rightarrow> string \<Rightarrow> int64 \<Rightarrow> nat \<Rightarrow> int64 \<Rightarrow> attempt list" where
  "retry_loop exec c sz i curoff =
     (let a = copy_attempt exec c sz i curoff in
      if err a \<noteq> None then [a]
      else if cont a then a # retry_loop exec c sz (Suc i) (next_off a)
      else [a])"
  by pat_completeness auto
termination
  by (relation "measure (\<lambda>(exec, c, sz, i, curoff). maxretry - i)")
     (auto simp: copy_attempt_def Let_def
           split: launch.splits prod.splits option.splits if_splits)

declare retry_loop.simps [simp del]

text \<open>
  The pipe after the goroutine has finished: every pass wrote its bytes, and the last
  pass decides how the pipe is closed (\<^verbatim>\<open>pw.CloseWithError(err)\<close> or \<^verbatim>\<open>pw.Close()\<close>).
\<close>

definition pipe_of :: "attempt list \<Rightarrow> pipe" where
  "pipe_of tr = \<lparr>data = concat (map copied tr), fin = CloseWithError (err (last tr))\<rparr>"

text \<open>
  \<^verbatim>\<open>Fetch\<close>: the value returned to the caller (an error, or the pipe as its reader sees it
  when reading to the end), and the passes of the goroutine it started. The consumer is
  taken to read the pipe to its end, so no write to the pipe fails.
\<close>

definition Fetch :: "cat_env \<Rightarrow> fetcher \<Rightarrow> int64 \<Rightarrow> int64 \<Rightarrow> (error + pipe) \<times> attempt list" where
  "Fetch exec f off sz =
     (if sint (size' f) < sint off then (Inl (ErrOffset off (size' f)), [])
      else (let tr = retry_loop exec (cid f) sz 0 off in (Inr (pipe_of tr), tr)))"

subsection \<open>Resolving a descriptor\<close>

text \<open>\<^verbatim>\<open>strings.HasSuffix\<close> and \<^verbatim>\<open>strings.TrimSuffix\<close>.\<close>

definition HasSuffix :: "string \<Rightarrow> string \<Rightarrow> bool" where
  "HasSuffix s suf = (length suf \<le> length s \<and> drop (length s - length suf) s = suf)"

definition TrimSuffix :: "string \<Rightarrow> string \<Rightarrow> string" where
  "TrimSuffix s suf = (if HasSuffix s suf then take (length s - length suf) s else s)"

text \<open>
  \<^verbatim>\<open>strconv.ParseUint(s, 10, 64)\<close>: every byte must be a decimal digit (a letter is a
  digit too large for base 10, an underscore is only read in base 0); the loop stops
  with a range error as soon as the number leaves 64 bits.
\<close>

definition digit_val :: "char \<Rightarrow> nat option" where
  "digit_val ch =
     (if (48::nat) \<le> of_char ch \<and> of_char ch \<le> (57::nat) then Some (of_char ch - 48) else None)"

fun ParseUint_loop :: "string \<Rightarrow> nat \<Rightarrow> error + nat" where
  "ParseUint_loop [] n = Inr n"
| "ParseUint_loop (ch # s) n =
     (case digit_val ch of
        None \<Rightarrow> Inl ErrSyntax
      | Some d \<Rightarrow>
          if (2 ^ 64 - 1) div 10 + 1 \<le> n then Inl ErrRange
          else if 2 ^ 64 \<le> n * 10 + d then Inl ErrRange
          else ParseUint_loop s (n * 10 + d))"

definition ParseUint :: "string \<Rightarrow> error + nat" where
  "ParseUint s = (if s = [] then Inl ErrSyntax else ParseUint_loop s 0)"

text \<open>
  \<^verbatim>\<open>strconv.ParseInt(s, 10, 64)\<close>: an optional sign, then \<^verbatim>\<open>ParseUint\<close>, then the
  range of \<^verbatim>\<open>int64\<close>.
\<close>

definition ParseInt :: "string \<Rightarrow> error + int64" where
  "ParseInt s =
     (case s of
        [] \<Rightarrow> Inl ErrSyntax
      | ch # s' \<Rightarrow>
          (let neg = (ch = CHR ''-'');
               s1 = (if ch = CHR ''+'' \<or> ch = CHR ''-'' then s' else s)
           in case ParseUint s1 of
                Inl e \<Rightarrow> Inl e
              | Inr un \<Rightarrow>
                  if \<not> neg \<and> 2 ^ 63 \<le> un then Inl ErrRange
                  else if neg \<and> 2 ^ 63 < un then Inl ErrRange
                  else Inr (if neg then - of_nat un else of_nat un)))"

text \<open>
  \<^verbatim>\<open>exec.Command("ipfs", "files", "stat", "--format=<size>", "/ipfs/"+cid)\<close>
\<close>

definition stat_size_argv :: "string \<Rightarrow> string list" where
  "stat_size_argv c = [''ipfs'', ''files'', ''stat'', ''--format=<size>'', ''/ipfs/'' @ c]"

text \<open>
  \<^verbatim>\<open>Handle\<close>. \<^verbatim>\<open>ipfs.GetCID\<close> lives in another package and is a parameter, as is
  \<^verbatim>\<open>Output()\<close>, the run of a command that returns its standard output or an error.
  The result is the value returned (the error, or the fetcher and the size) and the
  command lines that were run.
\<close>

definition Handle ::
  "('d \<Rightarrow> error + string) \<Rightarrow> (string list \<Rightarrow> error + bytes) \<Rightarrow> 'd
     \<Rightarrow> (error + fetcher \<times> int64) \<times> string list list" where
  "Handle GetCID Output desc =
     (case GetCID desc of
        Inl e \<Rightarrow> (Inl e, [])
      | Inr c \<Rightarrow>
          (case Output (stat_size_argv c) of
             Inl e \<Rightarrow> (Inl e, [stat_size_argv c])
           | Inr sizeB \<Rightarrow>
               (case ParseInt (TrimSuffix sizeB [CHR 0x0A]) of
                  Inl e \<Rightarrow> (Inl e, [stat_size_argv c])
                | Inr sz \<Rightarrow> (Inr (\<lparr>cid = c, size' = sz\<rparr>, sz), [stat_size_argv c]))))"

subsection \<open>Check and GenID\<close>

text \<open>
  \<^verbatim>\<open>exec.Command("ipfs", "files", "stat", "/ipfs/"+f.cid).Run()\<close>, with \<^verbatim>\<open>Run\<close> a
  parameter: the error of running a command line, \<open>None\<close> for \<^verbatim>\<open>nil\<close>.
\<close>

definition stat_argv :: "string \<Rightarrow> string list" where
  "stat_argv c = [''ipfs'', ''files'', ''stat'', ''/ipfs/'' @ c]"

definition Check :: "(string list \<Rightarrow> error option) \<Rightarrow> fetcher \<Rightarrow> error option" where
  "Check Run f = Run (stat_argv (cid f))"

text \<open>
  \<^verbatim>\<open>fmt.Sprintf("%x", sum)\<close> of a byte array: two lower-case hexadecimal digits for
  each byte.
\<close>

definition hex_digit :: "nat \<Rightarrow> char" where
  "hex_digit d = ''0123456789abcdef'' ! (d mod 16)"

definition fmt_x :: "bytes \<Rightarrow> string" where
  "fmt_x bs = concat (map (\<lambda>b. [hex_digit (of_char b div 16), hex_digit (of_char b mod 16)]) bs)"

text \<open>
  \<^verbatim>\<open>GenID\<close>. \<^verbatim>\<open>sha256.Sum256\<close> is a parameter: a function from bytes to the bytes of
  the digest.
\<close>

definition GenID :: "(bytes \<Rightarrow> bytes) \<Rightarrow> fetcher \<Rightarrow> int64 \<Rightarrow> int64 \<Rightarrow> string" where
  "GenID Sum256 f off sz =
     fmt_x (Sum256 (cid f @ ''-'' @ fmt_d (sint off) @ ''-'' @ fmt_d (sint sz)))"

subsection \<open>Decimal numerals\<close>

text \<open>
  What it means for the output of the size query to be a decimal integer, stated without
  the parsing loop: an optional sign, then one or more of the bytes \<^verbatim>\<open>0\<close> to \<^verbatim>\<open>9\<close>;
  \<open>decimal_value\<close> is the integer such a text denotes. \<open>ParseInt\<close> is compared with it
  below.
\<close>

definition is_digit :: "char \<Rightarrow> bool" where
  "is_digit ch = ((48::nat) \<le> of_char ch \<and> of_char ch \<le> (57::nat))"

definition digits_value :: "string \<Rightarrow> nat" where
  "digits_value s = foldl (\<lambda>n ch. n * 10 + (of_char ch - 48)) 0 s"

definition decimal_value :: "string \<Rightarrow> int option" where
  "decimal_value s =
     (case s of
        [] \<Rightarrow> None
      | ch # s' \<Rightarrow>
          (let body = (if ch = CHR ''+'' \<or> ch = CHR ''-'' then s' else s) in
           if body = [] \<or> \<not> list_all is_digit body then None
           else Some (if ch = CHR ''-'' then - int (digits_value body)
                      else int (digits_value body))))"

subsection \<open>Stub commands\<close>

text \<open>
  Stand-ins for the \<^verbatim>\<open>ipfs\<close> command, on which the theorems are run. The blob \<open>blob\<close> is
  stored under the name \<^verbatim>\<open>Qm\<close>.
\<close>

definition blob :: bytes where
  "blob = ''abcdefgh''"

definition lock_text :: string where
  "lock_text = ''Error: lock /data/ipfs/repo.lock: someone else has the lock''"

text \<open>
  The first \<^verbatim>\<open>ipfs cat\<close> writes two bytes of the range it was asked for and then stops
  because of the lock; every later one with offset 2 and length 4 writes that range.
\<close>

definition cat_locked_once :: cat_env where
  "cat_locked_once i a =
     (if i = 0 \<and> a = [''ipfs'', ''cat'', ''--offset=0'', ''--length=4'', ''Qm'']
      then Started \<lparr>stdout = take 2 (take 4 (drop 0 blob)), stdout_err = None,
                     stderr = lock_text\<rparr>
      else if a = [''ipfs'', ''cat'', ''--offset=2'', ''--length=4'', ''Qm'']
      then Started \<lparr>stdout = take 4 (drop 2 blob), stdout_err = None, stderr = []\<rparr>
      else StartFailed (ErrExt ''unexpected command''))"

text \<open>
  \<^verbatim>\<open>ipfs cat\<close> writes three of the eight bytes it was asked for and exits with an error
  that is not the lock: its standard output just ends.
\<close>

definition cat_dies :: cat_env where
  "cat_dies i a =
     (if a = [''ipfs'', ''cat'', ''--offset=0'', ''--length=8'', ''Qm'']
      then Started \<lparr>stdout = take 3 (take 8 (drop 0 blob)), stdout_err = None,
                     stderr = ''Error: failed to fetch all nodes''\<rparr>
      else StartFailed (ErrExt ''unexpected command''))"

text \<open>The lock is never released: every \<^verbatim>\<open>ipfs cat\<close> stops at once with the lock message.\<close>

definition cat_always_locked :: cat_env where
  "cat_always_locked i a = Started \<lparr>stdout = [], stdout_err = None, stderr = lock_text\<rparr>"

text \<open>
  \<^verbatim>\<open>ipfs cat\<close> at the edges of the blob: a range that starts at its end, a range that
  runs past its end, and an offset and a length below zero, which the command refuses.
\<close>

definition cat_edges :: cat_env where
  "cat_edges i a =
     (if a = [''ipfs'', ''cat'', ''--offset=8'', ''--length=20'', ''Qm'']
      then Started \<lparr>stdout = take 20 (drop 8 blob), stdout_err = None, stderr = []\<rparr>
      else if a = [''ipfs'', ''cat'', ''--offset=6'', ''--length=20'', ''Qm'']
      then Started \<lparr>stdout = take 20 (drop 6 blob), stdout_err = None, stderr = []\<rparr>
      else if a = [''ipfs'', ''cat'', ''--offset=-1'', ''--length=-5'', ''Qm'']
      then StartFailed (ErrExt ''exit status 1'')
      else PipeFailed (ErrExt ''unexpected command''))"

text \<open>
  The size query: \<^verbatim>\<open>Qm\<close> has 1000 bytes, the answer for \<^verbatim>\<open>Qx\<close> is not a number, and
  the query fails for every other name.
\<close>

definition stat_stub :: "string list \<Rightarrow> error + bytes" where
  "stat_stub a =
     (if a = [''ipfs'', ''files'', ''stat'', ''--format=<size>'', ''/ipfs/Qm'']
      then Inr (''1000'' @ [CHR 0x0A])
      else if a = [''ipfs'', ''files'', ''stat'', ''--format=<size>'', ''/ipfs/Qx'']
      then Inr ''unknown''
      else Inl (ErrExt ''exit status 1''))"

text \<open>A descriptor is just the name it carries; the empty one carries none.\<close>

definition getcid_stub :: "string \<Rightarrow> error + string" where
  "getcid_stub desc = (if desc = [] then Inl (ErrExt ''CID is not specified'') else Inr desc)"

text \<open>The existence query succeeds for \<^verbatim>\<open>Qm\<close> only.\<close>

definition run_stub :: "string list \<Rightarrow> error option" where
  "run_stub a =
     (if a = [''ipfs'', ''files'', ''stat'', ''/ipfs/Qm''] then None
      else Some (ErrExt ''exit status 1''))"

text \<open>A digest function with the right length of result.\<close>

definition sum_stub :: "bytes \<Rightarrow> bytes" where
  "sum_stub bs = replicate 32 (CHR 0x00)"

section \<open>Properties\<close>

subsection \<open>One pass and the loop\<close>

lemma argv_copy_attempt: "argv (copy_attempt exec c sz i curoff) = cat_argv curoff sz c"
  by (simp add: copy_attempt_def Let_def split: launch.splits prod.splits option.splits)

lemma cont_copy_attempt:
  assumes "cont (copy_attempt exec c sz i curoff)"
  shows "i < maxretry"
    and "err (copy_attempt exec c sz i curoff) = None"
    and "next_off (copy_attempt exec c sz i curoff) =
           curoff + of_nat (length (copied (copy_attempt exec c sz i curoff)))"
  using assms
  by (auto simp: copy_attempt_def Let_def split: launch.splits prod.splits option.splits if_splits)

lemma retry_loop_stop:
  "err (copy_attempt exec c sz i curoff) \<noteq> None \<or> \<not> cont (copy_attempt exec c sz i curoff)
   \<Longrightarrow> retry_loop exec c sz i curoff = [copy_attempt exec c sz i curoff]"
  by (subst retry_loop.simps) (auto simp: Let_def)

lemma retry_loop_continue:
  "cont (copy_attempt exec c sz i curoff)
   \<Longrightarrow> retry_loop exec c sz i curoff =
       copy_attempt exec c sz i curoff #
       retry_loop exec c sz (Suc i) (next_off (copy_attempt exec c sz i curoff))"
  by (subst retry_loop.simps) (auto simp: Let_def dest: cont_copy_attempt(2))

lemma retry_loop_nonempty: "retry_loop exec c sz i curoff \<noteq> []"
  by (subst retry_loop.simps) (simp add: Let_def)

text \<open>The first pass, and what each outcome of the launch makes of a pass.\<close>

lemma first_pass: "hd (retry_loop exec c sz 0 off) = copy_attempt exec c sz 0 off"
  by (subst retry_loop.simps) (simp add: Let_def)

lemma copy_attempt_PipeFailed:
  "exec i (cat_argv curoff sz c) = PipeFailed e \<Longrightarrow>
   copy_attempt exec c sz i curoff =
     \<lparr>argv = cat_argv curoff sz c, copied = [], cont = False, err = Some e, next_off = curoff\<rparr>"
  by (simp add: copy_attempt_def)

lemma copy_attempt_StartFailed:
  "exec i (cat_argv curoff sz c) = StartFailed e \<Longrightarrow>
   copy_attempt exec c sz i curoff =
     \<lparr>argv = cat_argv curoff sz c, copied = [], cont = False, err = Some e, next_off = curoff\<rparr>"
  by (simp add: copy_attempt_def)

lemma copy_attempt_Started:
  "exec i (cat_argv curoff sz c) = Started out \<Longrightarrow>
   copied (copy_attempt exec c sz i curoff) = fst (CopyN (stdout out) (stdout_err out) (sint sz))"
  by (simp add: copy_attempt_def Let_def split: prod.splits option.splits)


text \<open>
  The offset of pass \<open>k\<close> is the starting offset plus the number of bytes the passes
  before it wrote to the pipe (in \<^verbatim>\<open>int64\<close> arithmetic).
\<close>

lemma retry_loop_offsets:
  "k < length (retry_loop exec c sz i curoff) \<Longrightarrow>
   argv (retry_loop exec c sz i curoff ! k) =
     cat_argv (curoff + of_nat (length (concat (map copied
                 (take k (retry_loop exec c sz i curoff)))))) sz c"
proof (induction exec c sz i curoff arbitrary: k rule: retry_loop.induct)
  case (1 exec c sz i curoff)
  let ?a = "copy_attempt exec c sz i curoff"
  show ?case
  proof (cases "cont ?a")
    case True
    note e = cont_copy_attempt(2) [OF True] and n = cont_copy_attempt(3) [OF True]
    show ?thesis
    proof (cases k)
      case 0
      then show ?thesis by (simp add: retry_loop_continue [OF True] argv_copy_attempt)
    next
      case (Suc k')
      with "1.prems" have "k' < length (retry_loop exec c sz (Suc i) (next_off ?a))"
        by (simp add: retry_loop_continue [OF True])
      from "1.IH" [OF refl _ True this] e Suc n show ?thesis
        by (simp add: retry_loop_continue [OF True] add.assoc)
    qed
  next
    case False
    with "1.prems" show ?thesis
      by (simp add: retry_loop_stop argv_copy_attempt)
  qed
qed

text \<open>The loop makes at most \<open>maxretry\<close> passes after the first.\<close>

lemma retry_loop_bound:
  "i \<le> maxretry \<Longrightarrow> length (retry_loop exec c sz i curoff) \<le> Suc maxretry - i"
proof (induction exec c sz i curoff rule: retry_loop.induct)
  case (1 exec c sz i curoff)
  let ?a = "copy_attempt exec c sz i curoff"
  show ?case
  proof (cases "cont ?a")
    case True
    note e = cont_copy_attempt(2) [OF True] and lt = cont_copy_attempt(1) [OF True]
    from "1.IH" [OF refl _ True] e lt
    have "length (retry_loop exec c sz (Suc i) (next_off ?a)) \<le> Suc maxretry - Suc i"
      by simp
    with lt show ?thesis by (simp add: retry_loop_continue [OF True])
  next
    case False
    with "1.prems" show ?thesis by (simp add: retry_loop_stop)
  qed
qed

lemma Fetch_attempts_bound: "length (snd (Fetch exec f off sz)) \<le> 101"
  using retry_loop_bound [of 0 exec "cid f" sz off]
  by (simp add: Fetch_def Let_def maxretry_def)

text \<open>
  Whether a pass ends the transfer with success depends on the length asked for and on
  what the command wrote, and not on \<^verbatim>\<open>curoff\<close>: the count that \<^verbatim>\<open>io.CopyN\<close> waits for is
  the whole length at every pass.
\<close>

lemma terminal_success_threshold:
  "exec i (cat_argv curoff sz c) = Started out \<Longrightarrow>
   (err (copy_attempt exec c sz i curoff) = None \<and> \<not> cont (copy_attempt exec c sz i curoff))
     = (sint sz \<le> 0 \<or> sint sz \<le> int (length (stdout out)))"
  by (auto simp: copy_attempt_def CopyN_def Let_def)

subsection \<open>The stubs, evaluated\<close>

lemmas eval_simps = Fetch_def pipe_of_def CloseWithError_def retry_loop.simps copy_attempt_def
  CopyN_def cat_argv_def fmt_d_def digits.simps digit_char_def maxretry_def lock_marker_def
  lock_text_def blob_def Let_def

lemma Contains_lock_text: "Contains lock_text lock_marker"
  by (simp add: lock_text_def lock_marker_def)

lemma locked_once_trace:
  "retry_loop cat_locked_once ''Qm'' 4 0 0 =
     [\<lparr>argv = [''ipfs'', ''cat'', ''--offset=0'', ''--length=4'', ''Qm''], copied = ''ab'',
       cont = True, err = None, next_off = 2\<rparr>,
      \<lparr>argv = [''ipfs'', ''cat'', ''--offset=2'', ''--length=4'', ''Qm''], copied = ''cdef'',
       cont = False, err = None, next_off = 2\<rparr>]"
  by (simp add: eval_simps cat_locked_once_def)

lemma always_locked_attempt:
  "0 < sint sz \<Longrightarrow>
   copy_attempt cat_always_locked c sz i curoff =
     \<lparr>argv = cat_argv curoff sz c, copied = [], cont = (i < maxretry),
      err = (if i < maxretry then None else Some EOF), next_off = curoff\<rparr>"
  by (simp add: copy_attempt_def cat_always_locked_def CopyN_def Contains_lock_text)

lemma always_locked_loop:
  "i \<le> maxretry \<Longrightarrow> 0 < sint sz \<Longrightarrow>
   length (retry_loop cat_always_locked c sz i curoff) = Suc maxretry - i \<and>
   concat (map copied (retry_loop cat_always_locked c sz i curoff)) = [] \<and>
   err (last (retry_loop cat_always_locked c sz i curoff)) = Some EOF"
proof (induction "maxretry - i" arbitrary: i)
  case 0
  then have "i = maxretry" by simp
  with 0 show ?case
    by (simp add: retry_loop_stop always_locked_attempt)
next
  case (Suc d)
  then have lt: "i < maxretry" and d: "d = maxretry - Suc i" and le: "Suc i \<le> maxretry"
    by simp_all
  from lt Suc.prems have c: "cont (copy_attempt cat_always_locked c sz i curoff)"
    by (simp add: always_locked_attempt)
  from Suc.hyps(1) [OF d le Suc.prems(2)] lt Suc.prems(2) show ?case
    by (simp add: retry_loop_continue [OF c] always_locked_attempt retry_loop_nonempty
          Suc_diff_Suc)
qed

subsection \<open>Parsing the size\<close>

lemma digit_val_iff: "digit_val ch = (if is_digit ch then Some (of_char ch - 48) else None)"
  by (simp add: digit_val_def is_digit_def)

lemma foldl_digits_mono:
  "n \<le> foldl (\<lambda>n ch. n * 10 + (of_char ch - 48)) (n::nat) s"
proof (induction s arbitrary: n)
  case Nil
  show ?case by simp
next
  case (Cons ch s)
  have "n \<le> n * 10 + (of_char ch - 48)" by simp
  also have "\<dots> \<le> foldl (\<lambda>n ch. n * 10 + (of_char ch - 48)) (n * 10 + (of_char ch - 48)) s"
    by (rule Cons.IH)
  finally show ?case by simp
qed

text \<open>
  The loop of \<open>ParseUint\<close> succeeds exactly on digits whose value fits 64 bits: once the
  number has left 64 bits it cannot come back.
\<close>

lemma ParseUint_loop_Inr:
  "n < 2 ^ 64 \<Longrightarrow>
   ParseUint_loop s n = Inr m \<longleftrightarrow>
     list_all is_digit s \<and>
     foldl (\<lambda>n ch. n * 10 + (of_char ch - 48)) n s < 2 ^ 64 \<and>
     m = foldl (\<lambda>n ch. n * 10 + (of_char ch - 48)) n s"
proof (induction s arbitrary: n)
  case Nil
  then show ?case by auto
next
  case (Cons ch s)
  define d :: nat where "d = of_char ch - 48"
  have step: "foldl (\<lambda>n ch. n * 10 + (of_char ch - 48)) n (ch # s) =
      foldl (\<lambda>n ch. n * 10 + (of_char ch - 48)) (n * 10 + d) s"
    by (simp add: d_def)
  show ?case
  proof (cases "is_digit ch")
    case False
    then show ?thesis by (simp add: digit_val_iff)
  next
    case True
    then have dv: "digit_val ch = Some d"
      by (simp add: digit_val_iff d_def)
    show ?thesis
    proof (cases "2 ^ 64 \<le> n * 10 + d")
      case big: True
      have "n * 10 + d \<le> foldl (\<lambda>n ch. n * 10 + (of_char ch - 48)) (n * 10 + d) s"
        by (rule foldl_digits_mono)
      with big have "\<not> foldl (\<lambda>n ch. n * 10 + (of_char ch - 48)) (n * 10 + d) s < 2 ^ 64"
        by linarith
      with big show ?thesis
        unfolding step by (simp add: dv)
    next
      case small: False
      then have c: "\<not> (2 ^ 64 - 1) div 10 + 1 \<le> n" and lt: "n * 10 + d < 2 ^ 64"
        by simp_all
      from True small c Cons.IH [OF lt] show ?thesis
        unfolding step by (simp add: dv)
    qed
  qed
qed

lemma ParseUint_Inr:
  "ParseUint s = Inr m \<longleftrightarrow>
     s \<noteq> [] \<and> list_all is_digit s \<and> digits_value s < 2 ^ 64 \<and> m = digits_value s"
  by (auto simp: ParseUint_def ParseUint_loop_Inr digits_value_def)

text \<open>
  \<open>ParseInt\<close> succeeds exactly on the decimal integers in the range of \<^verbatim>\<open>int64\<close>, and
  returns the integer the text denotes.
\<close>

lemma ParseInt_decimal:
  "ParseInt s = Inr v \<longleftrightarrow>
     (\<exists>n. decimal_value s = Some n \<and> - (2 ^ 63) \<le> n \<and> n < 2 ^ 63 \<and> v = word_of_int n)"
proof (cases s)
  case Nil
  then show ?thesis by (simp add: ParseInt_def decimal_value_def)
next
  case (Cons ch s')
  define body where "body = (if ch = CHR ''+'' \<or> ch = CHR ''-'' then s' else s)"
  define D where "D = digits_value body"
  define ok where "ok \<longleftrightarrow> body \<noteq> [] \<and> list_all is_digit body"
  have pi: "ParseInt s =
      (case ParseUint body of
         Inl e \<Rightarrow> Inl e
       | Inr un \<Rightarrow>
           if ch \<noteq> CHR ''-'' \<and> 2 ^ 63 \<le> un then Inl ErrRange
           else if ch = CHR ''-'' \<and> 2 ^ 63 < un then Inl ErrRange
           else Inr (if ch = CHR ''-'' then - of_nat un else of_nat un))"
    by (simp add: ParseInt_def Cons body_def Let_def)
  have dv: "decimal_value s =
      (if ok then Some (if ch = CHR ''-'' then - int D else int D) else None)"
    by (simp add: decimal_value_def Cons body_def Let_def D_def ok_def)
  consider e where "ParseUint body = Inl e" "\<not> (ok \<and> D < 2 ^ 64)"
    | "ParseUint body = Inr D" "ok" "D < 2 ^ 64"
    using ParseUint_Inr [of body] by (cases "ParseUint body") (auto simp: D_def ok_def)
  then show ?thesis
  proof cases
    case 1
    have "\<not> (ok \<and> int D < 2 ^ 63 \<and> - (2 ^ 63) \<le> - int D)"
      using 1(2) by auto
    with 1 show ?thesis
      by (auto simp: pi dv)
  next
    case 2
    show ?thesis
    proof (cases "ch = CHR ''-''")
      case True
      with 2 show ?thesis by (auto simp: pi dv)
    next
      case False
      with 2 show ?thesis by (auto simp: pi dv)
    qed
  qed
qed

lemma decimal_1000: "decimal_value ''1000'' = Some 1000"
  by (simp add: decimal_value_def is_digit_def digits_value_def)

lemma decimal_unknown: "decimal_value ''unknown'' = None"
  by (simp add: decimal_value_def is_digit_def)

section \<open>The claims\<close>

subsection \<open>Fetch: the bytes of the stream\<close>

text \<open>
  C1. The stream of \<^verbatim>\<open>Fetch(offset, length)\<close>, read to its end, should hold exactly the
  bytes \<open>[offset, offset + length)\<close> of the blob, whatever retries took place. The code
  does not keep this once a retried pass has written bytes: with the blob \<open>blob\<close>, offset
  0 and length 4, a first pass that wrote two bytes before it met the lock is followed by
  a pass that copies four more, and the stream ends cleanly after the six bytes
  \<^verbatim>\<open>abcdef\<close>, while the range asked for is \<^verbatim>\<open>abcd\<close>.
\<close>

theorem Fetch_overrun_after_retry:
  "fst (Fetch cat_locked_once \<lparr>cid = ''Qm'', size' = 8\<rparr> 0 4)
     = Inr \<lparr>data = ''abcdef'', fin = EOF\<rparr>
   \<and> take 4 (drop 0 blob) = ''abcd''"
  by (simp add: Fetch_def Let_def pipe_of_def CloseWithError_def locked_once_trace blob_def)

text \<open>
  C2. A pass should count the bytes it copies towards the remaining length, so that a
  pass resumed after \<open>n\<close> delivered bytes copies \<open>length - n\<close> more. In the code the
  count of \<^verbatim>\<open>io.CopyN\<close> is the whole length at every pass: in the call of four bytes
  below, the first pass delivers two and asks for a retry, and the pass with index 1 that
  resumes at offset 2 copies four bytes, not the two that remain, and only then ends the
  transfer with success.
\<close>

theorem resumed_attempt_copies_full_length:
  "snd (Fetch cat_locked_once \<lparr>cid = ''Qm'', size' = 8\<rparr> 0 4) =
     [\<lparr>argv = [''ipfs'', ''cat'', ''--offset=0'', ''--length=4'', ''Qm''], copied = ''ab'',
       cont = True, err = None, next_off = 2\<rparr>,
      \<lparr>argv = [''ipfs'', ''cat'', ''--offset=2'', ''--length=4'', ''Qm''], copied = ''cdef'',
       cont = False, err = None, next_off = 2\<rparr>] \<and>
   copy_attempt cat_locked_once ''Qm'' 4 1 2 =
     \<lparr>argv = [''ipfs'', ''cat'', ''--offset=2'', ''--length=4'', ''Qm''], copied = ''cdef'',
      cont = False, err = None, next_off = 2\<rparr>"
  by (simp add: Fetch_def Let_def locked_once_trace copy_attempt_def cat_locked_once_def
        CopyN_def cat_argv_def fmt_d_def digits.simps digit_char_def blob_def)

subsection \<open>Fetch: the offset of a retry\<close>

text \<open>
  C3. When a pass fails after it has written \<open>n\<close> bytes, the standard-error text holds
  the lock marker and the pass index is below the ceiling, the pass asks for another one
  and leaves \<^verbatim>\<open>curoff\<close> advanced by exactly \<open>n\<close>. Across the whole call, the offset on
  the command line of pass \<open>k\<close> is the offset the caller gave plus the number of bytes
  that all passes before \<open>k\<close> wrote to the stream (the sum is taken in \<^verbatim>\<open>int64\<close>, as
  the code takes it).
\<close>

theorem Fetch_resume_offset:
  "(exec i (cat_argv curoff sz (cid f)) = Started out \<and>
    CopyN (stdout out) (stdout_err out) (sint sz) = (w, Some e) \<and>
    i < maxretry \<and> Contains (stderr out) lock_marker
    \<longrightarrow> cont (copy_attempt exec (cid f) sz i curoff) \<and>
        copied (copy_attempt exec (cid f) sz i curoff) = w \<and>
        next_off (copy_attempt exec (cid f) sz i curoff) = curoff + of_nat (length w))
   \<and> (\<forall>k < length (snd (Fetch exec f off sz)).
         argv (snd (Fetch exec f off sz) ! k) =
           cat_argv (off + of_nat (length (concat (map copied
                       (take k (snd (Fetch exec f off sz))))))) sz (cid f))"
proof (intro conjI impI allI)
  assume "exec i (cat_argv curoff sz (cid f)) = Started out \<and>
    CopyN (stdout out) (stdout_err out) (sint sz) = (w, Some e) \<and>
    i < maxretry \<and> Contains (stderr out) lock_marker"
  then have a: "copy_attempt exec (cid f) sz i curoff =
      \<lparr>argv = cat_argv curoff sz (cid f), copied = w, cont = True, err = None,
       next_off = curoff + of_nat (length w)\<rparr>"
    by (simp add: copy_attempt_def)
  show "cont (copy_attempt exec (cid f) sz i curoff)"
    and "copied (copy_attempt exec (cid f) sz i curoff) = w"
    and "next_off (copy_attempt exec (cid f) sz i curoff) = curoff + of_nat (length w)"
    by (simp_all add: a)
next
  fix k
  assume k: "k < length (snd (Fetch exec f off sz))"
  show "argv (snd (Fetch exec f off sz) ! k) =
           cat_argv (off + of_nat (length (concat (map copied
                       (take k (snd (Fetch exec f off sz))))))) sz (cid f)"
  proof (cases "sint (size' f) < sint off")
    case True
    with k show ?thesis by (simp add: Fetch_def)
  next
    case False
    with k have "k < length (retry_loop exec (cid f) sz 0 off)"
      by (simp add: Fetch_def Let_def)
    from retry_loop_offsets [OF this] False show ?thesis
      by (simp add: Fetch_def Let_def)
  qed
qed

theorem Fetch_resume_offset_witness:
  "next_off (copy_attempt cat_locked_once ''Qm'' 4 0 0) = 2 \<and>
   length (snd (Fetch cat_locked_once \<lparr>cid = ''Qm'', size' = 8\<rparr> 0 4)) = 2 \<and>
   argv (snd (Fetch cat_locked_once \<lparr>cid = ''Qm'', size' = 8\<rparr> 0 4) ! 1) =
     [''ipfs'', ''cat'', ''--offset=2'', ''--length=4'', ''Qm'']"
proof -
  let ?f = "\<lparr>cid = ''Qm'', size' = 8\<rparr>"
  let ?out = "\<lparr>stdout = ''ab'', stdout_err = None, stderr = lock_text\<rparr>"
  have tr: "snd (Fetch cat_locked_once ?f 0 4) = retry_loop cat_locked_once ''Qm'' 4 0 0"
    by (simp add: Fetch_def Let_def)
  have h: "cat_locked_once 0 (cat_argv 0 4 (cid ?f)) = Started ?out \<and>
      CopyN (stdout ?out) (stdout_err ?out) (sint (4::int64)) = (''ab'', Some EOF) \<and>
      0 < maxretry \<and> Contains (stderr ?out) lock_marker"
    by (simp add: cat_locked_once_def cat_argv_def fmt_d_def digits.simps digit_char_def
          CopyN_def maxretry_def Contains_lock_text blob_def)
  have k: "1 < length (snd (Fetch cat_locked_once ?f 0 4))"
    by (simp add: tr locked_once_trace)
  from Fetch_resume_offset [of cat_locked_once 0 0 4 ?f ?out "''ab''" EOF 0] h k
  have "next_off (copy_attempt cat_locked_once ''Qm'' 4 0 0) = 0 + of_nat (length ''ab'')"
    and "argv (snd (Fetch cat_locked_once ?f 0 4) ! 1) =
           cat_argv (0 + of_nat (length (concat (map copied
                       (take 1 (snd (Fetch cat_locked_once ?f 0 4))))))) 4 (cid ?f)"
    by simp_all
  then show ?thesis
    by (simp add: tr locked_once_trace cat_argv_def fmt_d_def digits.simps digit_char_def)
qed

subsection \<open>Fetch: how a failed transfer ends\<close>

text \<open>
  C4. A transfer that fails for good (an error that is not the lock, or the lock still
  held at the ceiling) should close the stream with an error that the reader can tell
  from a clean end of file. The code passes the error of \<^verbatim>\<open>io.CopyN\<close> to
  \<^verbatim>\<open>pw.CloseWithError\<close>; when the command's output just ends early that error is
  \<^verbatim>\<open>io.EOF\<close>, and a pipe closed with \<^verbatim>\<open>io.EOF\<close> reads like one closed cleanly. Below,
  a command that dies after three of eight bytes leaves a stream of three bytes ending in
  \<^verbatim>\<open>io.EOF\<close>, which is also what \<^verbatim>\<open>pw.Close()\<close> gives; and when the lock is never
  released the loop makes 101 passes, the last one fails with \<^verbatim>\<open>io.EOF\<close>, and the
  stream is empty and ends in \<^verbatim>\<open>io.EOF\<close>.
\<close>

theorem failed_transfer_ends_with_EOF:
  "Fetch cat_dies \<lparr>cid = ''Qm'', size' = 10\<rparr> 0 8 =
     (Inr \<lparr>data = ''abc'', fin = EOF\<rparr>,
      [\<lparr>argv = [''ipfs'', ''cat'', ''--offset=0'', ''--length=8'', ''Qm''], copied = ''abc'',
        cont = False, err = Some EOF, next_off = 0\<rparr>]) \<and>
   CloseWithError None = EOF \<and>
   length (snd (Fetch cat_always_locked \<lparr>cid = ''Qm'', size' = 10\<rparr> 0 8)) = 101 \<and>
   err (last (snd (Fetch cat_always_locked \<lparr>cid = ''Qm'', size' = 10\<rparr> 0 8))) = Some EOF \<and>
   fst (Fetch cat_always_locked \<lparr>cid = ''Qm'', size' = 10\<rparr> 0 8) = Inr \<lparr>data = [], fin = EOF\<rparr>"
proof -
  have "(0::nat) \<le> maxretry" and "0 < sint (8::int64)"
    by simp_all
  from always_locked_loop [OF this, of "''Qm''" 0]
  have tr: "length (retry_loop cat_always_locked ''Qm'' 8 0 0) = 101"
    "concat (map copied (retry_loop cat_always_locked ''Qm'' 8 0 0)) = []"
    "err (last (retry_loop cat_always_locked ''Qm'' 8 0 0)) = Some EOF"
    by (simp_all add: maxretry_def)
  have "Fetch cat_dies \<lparr>cid = ''Qm'', size' = 10\<rparr> 0 8 =
     (Inr \<lparr>data = ''abc'', fin = EOF\<rparr>,
      [\<lparr>argv = [''ipfs'', ''cat'', ''--offset=0'', ''--length=8'', ''Qm''], copied = ''abc'',
        cont = False, err = Some EOF, next_off = 0\<rparr>])"
    by (simp add: eval_simps cat_dies_def)
  then show ?thesis
    by (simp add: Fetch_def pipe_of_def CloseWithError_def Let_def tr)
qed

subsection \<open>Fetch: the check of the offset\<close>

text \<open>
  C5. For every offset greater than the size the fetcher is bound to, \<^verbatim>\<open>Fetch\<close> returns
  its error at once: no stream is made and no command is run (the list of passes is
  empty).
\<close>

theorem Fetch_offset_too_large:
  "sint (size' f) < sint off \<Longrightarrow> Fetch exec f off sz = (Inl (ErrOffset off (size' f)), [])"
  by (simp add: Fetch_def)

theorem Fetch_offset_too_large_witness:
  "sint (size' \<lparr>cid = ''Qm'', size' = 8\<rparr>) < sint (9::int64) \<and>
   Fetch cat_locked_once \<lparr>cid = ''Qm'', size' = 8\<rparr> 9 4 = (Inl (ErrOffset 9 8), [])"
proof -
  have h: "sint (size' \<lparr>cid = ''Qm'', size' = 8\<rparr>) < sint (9::int64)"
    by simp
  from Fetch_offset_too_large [OF h, of cat_locked_once 4] h show ?thesis
    by simp
qed

subsection \<open>Fetch: the length on the command line\<close>




subsection \<open>Handle\<close>

text \<open>
  C7. Once the descriptor has given a name, \<^verbatim>\<open>Handle\<close> returns the error of the size
  query when the query fails; it returns an error when the output of the query, without
  one trailing newline, is not a decimal integer of the \<^verbatim>\<open>int64\<close> range; and when the
  output is such an integer \<open>n\<close> it returns a fetcher bound to the name and to \<open>n\<close>,
  together with \<open>n\<close>. In each case the size query is the one command it runs.
\<close>

theorem Handle_size_query:
  assumes "GetCID desc = Inr c"
  shows "(\<forall>e. Output (stat_size_argv c) = Inl e \<longrightarrow> fst (Handle GetCID Output desc) = Inl e) \<and>
     (\<forall>b. Output (stat_size_argv c) = Inr b \<and>
          (\<forall>n. decimal_value (TrimSuffix b [CHR 0x0A]) = Some n \<longrightarrow> n < - (2 ^ 63) \<or> 2 ^ 63 \<le> n)
          \<longrightarrow> (\<exists>e. fst (Handle GetCID Output desc) = Inl e)) \<and>
     (\<forall>b n. Output (stat_size_argv c) = Inr b \<and>
          decimal_value (TrimSuffix b [CHR 0x0A]) = Some n \<and> - (2 ^ 63) \<le> n \<and> n < 2 ^ 63
          \<longrightarrow> fst (Handle GetCID Output desc)
                = Inr (\<lparr>cid = c, size' = word_of_int n\<rparr>, word_of_int n)) \<and>
     snd (Handle GetCID Output desc) = [stat_size_argv c]"
proof (intro conjI allI impI)
  fix e
  assume "Output (stat_size_argv c) = Inl e"
  with assms show "fst (Handle GetCID Output desc) = Inl e"
    by (simp add: Handle_def)
next
  fix b
  assume b: "Output (stat_size_argv c) = Inr b \<and>
    (\<forall>n. decimal_value (TrimSuffix b [CHR 0x0A]) = Some n \<longrightarrow> n < - (2 ^ 63) \<or> 2 ^ 63 \<le> n)"
  then have "\<And>v. ParseInt (TrimSuffix b [CHR 0x0A]) \<noteq> Inr v"
    by (fastforce simp: ParseInt_decimal)
  then obtain e where "ParseInt (TrimSuffix b [CHR 0x0A]) = Inl e"
    by (cases "ParseInt (TrimSuffix b [CHR 0x0A])") auto
  with assms b show "\<exists>e. fst (Handle GetCID Output desc) = Inl e"
    by (simp add: Handle_def)
next
  fix b n
  assume b: "Output (stat_size_argv c) = Inr b \<and>
    decimal_value (TrimSuffix b [CHR 0x0A]) = Some n \<and> - (2 ^ 63) \<le> n \<and> n < 2 ^ 63"
  then have "ParseInt (TrimSuffix b [CHR 0x0A]) = Inr (word_of_int n)"
    by (simp add: ParseInt_decimal)
  with assms b show "fst (Handle GetCID Output desc)
      = Inr (\<lparr>cid = c, size' = word_of_int n\<rparr>, word_of_int n)"
    by (simp add: Handle_def)
next
  from assms show "snd (Handle GetCID Output desc) = [stat_size_argv c]"
    by (simp add: Handle_def split: sum.splits)
qed

theorem Handle_size_query_witness:
  "fst (Handle getcid_stub stat_stub ''Qm'') = Inr (\<lparr>cid = ''Qm'', size' = 1000\<rparr>, 1000) \<and>
   snd (Handle getcid_stub stat_stub ''Qm'')
     = [[''ipfs'', ''files'', ''stat'', ''--format=<size>'', ''/ipfs/Qm'']] \<and>
   (\<exists>e. fst (Handle getcid_stub stat_stub ''Qx'') = Inl e) \<and>
   fst (Handle getcid_stub stat_stub ''Qy'') = Inl (ErrExt ''exit status 1'')"
proof -
  have g: "getcid_stub ''Qm'' = Inr ''Qm''" "getcid_stub ''Qx'' = Inr ''Qx''"
    "getcid_stub ''Qy'' = Inr ''Qy''"
    by (simp_all add: getcid_stub_def)
  have m: "stat_stub (stat_size_argv ''Qm'') = Inr (''1000'' @ [CHR 0x0A]) \<and>
      decimal_value (TrimSuffix (''1000'' @ [CHR 0x0A]) [CHR 0x0A]) = Some 1000 \<and>
      - (2 ^ 63) \<le> (1000::int) \<and> (1000::int) < 2 ^ 63"
    by (simp add: stat_stub_def stat_size_argv_def TrimSuffix_def HasSuffix_def decimal_1000)
  have x: "stat_stub (stat_size_argv ''Qx'') = Inr ''unknown'' \<and>
      (\<forall>n. decimal_value (TrimSuffix ''unknown'' [CHR 0x0A]) = Some n
            \<longrightarrow> n < - (2 ^ 63) \<or> 2 ^ 63 \<le> n)"
    by (simp add: stat_stub_def stat_size_argv_def TrimSuffix_def HasSuffix_def decimal_unknown)
  have y: "stat_stub (stat_size_argv ''Qy'') = Inl (ErrExt ''exit status 1'')"
    by (simp add: stat_stub_def stat_size_argv_def)
  from Handle_size_query [where GetCID = getcid_stub and desc = "''Qm''" and c = "''Qm''"
      and Output = stat_stub, OF g(1)] m
  have "fst (Handle getcid_stub stat_stub ''Qm'')
      = Inr (\<lparr>cid = ''Qm'', size' = word_of_int 1000\<rparr>, word_of_int 1000)"
    and "snd (Handle getcid_stub stat_stub ''Qm'') = [stat_size_argv ''Qm'']"
    by blast+
  moreover from Handle_size_query [where GetCID = getcid_stub and desc = "''Qx''" and c = "''Qx''"
      and Output = stat_stub, OF g(2)] x
  have "\<exists>e. fst (Handle getcid_stub stat_stub ''Qx'') = Inl e"
    by blast
  moreover from Handle_size_query [where GetCID = getcid_stub and desc = "''Qy''" and c = "''Qy''"
      and Output = stat_stub, OF g(3)] y
  have "fst (Handle getcid_stub stat_stub ''Qy'') = Inl (ErrExt ''exit status 1'')"
    by blast
  ultimately show ?thesis
    by (simp add: stat_size_argv_def)
qed

subsection \<open>GenID and Check\<close>

text \<open>
  C8. \<^verbatim>\<open>GenID\<close> is a function of the name, the offset and the length alone: it reads
  nothing else of the fetcher and takes no command to run, so two fetchers with the same
  name give the same string for the same offset and length; and the string has a fixed
  length, 64, when the digest has 32 bytes as SHA-256 has.
\<close>

theorem GenID_deterministic:
  assumes "\<forall>x. length (Sum256 x) = 32" and "cid f = cid g"
  shows "GenID Sum256 f off sz = GenID Sum256 g off sz \<and> length (GenID Sum256 f off sz) = 64"
proof -
  have "length (fmt_x bs) = 2 * length bs" for bs
    by (induction bs) (simp_all add: fmt_x_def)
  with assms show ?thesis
    by (simp add: GenID_def)
qed

theorem GenID_deterministic_witness:
  "GenID sum_stub \<lparr>cid = ''Qm'', size' = 8\<rparr> 0 4
     = GenID sum_stub \<lparr>cid = ''Qm'', size' = 1000\<rparr> 0 4 \<and>
   length (GenID sum_stub \<lparr>cid = ''Qm'', size' = 8\<rparr> 0 4) = 64"
proof -
  have h: "\<forall>x. length (sum_stub x) = 32"
    by (simp add: sum_stub_def)
  have c: "cid \<lparr>cid = ''Qm'', size' = 8\<rparr> = cid \<lparr>cid = ''Qm'', size' = 1000\<rparr>"
    by simp
  from GenID_deterministic [OF h c] show ?thesis .
qed

text \<open>
  C9. \<^verbatim>\<open>Check\<close> returns \<^verbatim>\<open>nil\<close> exactly when the existence query for the name succeeds,
  and when the query fails it returns the query's error as it is.
\<close>

theorem Check_verbatim:
  "(Check Run f = None \<longleftrightarrow> Run (stat_argv (cid f)) = None) \<and>
   (\<forall>e. Run (stat_argv (cid f)) = Some e \<longrightarrow> Check Run f = Some e)"
  by (simp add: Check_def)

theorem Check_verbatim_witness:
  "Check run_stub \<lparr>cid = ''Qm'', size' = 8\<rparr> = None \<and>
   Check run_stub \<lparr>cid = ''Qx'', size' = 8\<rparr> = Some (ErrExt ''exit status 1'')"
proof -
  have a: "run_stub (stat_argv (cid \<lparr>cid = ''Qm'', size' = 8\<rparr>)) = None"
    by (simp add: run_stub_def stat_argv_def)
  have b: "run_stub (stat_argv (cid \<lparr>cid = ''Qx'', size' = 8\<rparr>)) = Some (ErrExt ''exit status 1'')"
    by (simp add: run_stub_def stat_argv_def)
  from Check_verbatim [of run_stub "\<lparr>cid = ''Qm'', size' = 8\<rparr>"] a
  have "Check run_stub \<lparr>cid = ''Qm'', size' = 8\<rparr> = None"
    by blast
  moreover from Check_verbatim [of run_stub "\<lparr>cid = ''Qx'', size' = 8\<rparr>"] b
  have "Check run_stub \<lparr>cid = ''Qx'', size' = 8\<rparr> = Some (ErrExt ''exit status 1'')"
    by blast
  ultimately show ?thesis by simp
qed

subsection \<open>Fetch: nothing else is checked\<close>

text \<open>
  C10. \<^verbatim>\<open>Fetch\<close> returns an error to its caller if and only if the offset is greater
  than the bound size. Every other call (an offset equal to the size, a negative offset,
  any length at all, also zero or below) gets a stream and goes on to launch the read
  command built from the offset and the length as they were given: what the stream holds
  is what that launch gives. When the launch fails, at the pipe or at the start, the
  stream is empty and ends with the error of the launch; when the process runs, the first
  pass writes what \<^verbatim>\<open>io.CopyN\<close> copies from its output.
\<close>

theorem Fetch_validation:
  "((\<exists>e. fst (Fetch exec f off sz) = Inl e) \<longleftrightarrow> sint (size' f) < sint off) \<and>
   (sint off \<le> sint (size' f) \<longrightarrow>
      (\<exists>p. fst (Fetch exec f off sz) = Inr p) \<and>
      snd (Fetch exec f off sz) \<noteq> [] \<and>
      hd (snd (Fetch exec f off sz)) = copy_attempt exec (cid f) sz 0 off \<and>
      argv (hd (snd (Fetch exec f off sz))) = cat_argv off sz (cid f) \<and>
      (\<forall>e. exec 0 (cat_argv off sz (cid f)) = PipeFailed e \<longrightarrow>
         Fetch exec f off sz =
           (Inr \<lparr>data = [], fin = e\<rparr>,
            [\<lparr>argv = cat_argv off sz (cid f), copied = [], cont = False, err = Some e,
              next_off = off\<rparr>])) \<and>
      (\<forall>e. exec 0 (cat_argv off sz (cid f)) = StartFailed e \<longrightarrow>
         Fetch exec f off sz =
           (Inr \<lparr>data = [], fin = e\<rparr>,
            [\<lparr>argv = cat_argv off sz (cid f), copied = [], cont = False, err = Some e,
              next_off = off\<rparr>])) \<and>
      (\<forall>out. exec 0 (cat_argv off sz (cid f)) = Started out \<longrightarrow>
         copied (hd (snd (Fetch exec f off sz)))
           = fst (CopyN (stdout out) (stdout_err out) (sint sz))))"
proof -
  have failed: "Fetch exec f off sz =
      (Inr \<lparr>data = [], fin = e\<rparr>,
       [\<lparr>argv = cat_argv off sz (cid f), copied = [], cont = False, err = Some e,
         next_off = off\<rparr>])"
    if le: "sint off \<le> sint (size' f)"
      and a: "copy_attempt exec (cid f) sz 0 off =
        \<lparr>argv = cat_argv off sz (cid f), copied = [], cont = False, err = Some e,
         next_off = off\<rparr>" for e
  proof -
    have "retry_loop exec (cid f) sz 0 off = [copy_attempt exec (cid f) sz 0 off]"
      by (rule retry_loop_stop) (simp add: a)
    with le show ?thesis
      by (simp add: Fetch_def Let_def pipe_of_def CloseWithError_def a)
  qed
  show ?thesis
  proof (intro conjI impI allI)
    show "(\<exists>e. fst (Fetch exec f off sz) = Inl e) \<longleftrightarrow> sint (size' f) < sint off"
      by (auto simp: Fetch_def Let_def)
  next
    assume "sint off \<le> sint (size' f)"
    then show "\<exists>p. fst (Fetch exec f off sz) = Inr p"
      and "snd (Fetch exec f off sz) \<noteq> []"
      and "hd (snd (Fetch exec f off sz)) = copy_attempt exec (cid f) sz 0 off"
      and "argv (hd (snd (Fetch exec f off sz))) = cat_argv off sz (cid f)"
      by (simp_all add: Fetch_def Let_def retry_loop_nonempty first_pass argv_copy_attempt)
  next
    fix e
    assume "sint off \<le> sint (size' f)" and "exec 0 (cat_argv off sz (cid f)) = PipeFailed e"
    then show "Fetch exec f off sz =
        (Inr \<lparr>data = [], fin = e\<rparr>,
         [\<lparr>argv = cat_argv off sz (cid f), copied = [], cont = False, err = Some e,
           next_off = off\<rparr>])"
      by (intro failed copy_attempt_PipeFailed)
  next
    fix e
    assume "sint off \<le> sint (size' f)" and "exec 0 (cat_argv off sz (cid f)) = StartFailed e"
    then show "Fetch exec f off sz =
        (Inr \<lparr>data = [], fin = e\<rparr>,
         [\<lparr>argv = cat_argv off sz (cid f), copied = [], cont = False, err = Some e,
           next_off = off\<rparr>])"
      by (intro failed copy_attempt_StartFailed)
  next
    fix out
    assume "sint off \<le> sint (size' f)" and "exec 0 (cat_argv off sz (cid f)) = Started out"
    then show "copied (hd (snd (Fetch exec f off sz)))
        = fst (CopyN (stdout out) (stdout_err out) (sint sz))"
      by (simp add: Fetch_def Let_def first_pass copy_attempt_Started)
  qed
qed

theorem Fetch_validation_witness:
  "fst (Fetch cat_edges \<lparr>cid = ''Qm'', size' = 8\<rparr> 8 20) = Inr \<lparr>data = [], fin = EOF\<rparr> \<and>
   argv (hd (snd (Fetch cat_edges \<lparr>cid = ''Qm'', size' = 8\<rparr> 8 20)))
     = [''ipfs'', ''cat'', ''--offset=8'', ''--length=20'', ''Qm''] \<and>
   copied (hd (snd (Fetch cat_edges \<lparr>cid = ''Qm'', size' = 8\<rparr> 6 20))) = ''gh'' \<and>
   Fetch cat_edges \<lparr>cid = ''Qm'', size' = 8\<rparr> (- 1) (- 5) =
     (Inr \<lparr>data = [], fin = ErrExt ''exit status 1''\<rparr>,
      [\<lparr>argv = [''ipfs'', ''cat'', ''--offset=-1'', ''--length=-5'', ''Qm''], copied = [],
        cont = False, err = Some (ErrExt ''exit status 1''), next_off = - 1\<rparr>]) \<and>
   (\<exists>e. fst (Fetch cat_edges \<lparr>cid = ''Qm'', size' = 8\<rparr> 9 0) = Inl e)"
proof -
  let ?f = "\<lparr>cid = ''Qm'', size' = 8\<rparr>"
  have a: "sint (8::int64) \<le> sint (size' ?f)" and a': "sint (6::int64) \<le> sint (size' ?f)"
    and b: "sint (- 1::int64) \<le> sint (size' ?f)"
    and c: "sint (size' ?f) < sint (9::int64)"
    by simp_all
  have e6: "cat_edges 0 (cat_argv 6 20 (cid ?f)) =
      Started \<lparr>stdout = ''gh'', stdout_err = None, stderr = []\<rparr>"
    and em: "cat_edges 0 (cat_argv (- 1) (- 5) (cid ?f)) = StartFailed (ErrExt ''exit status 1'')"
    by (simp_all add: cat_edges_def cat_argv_def fmt_d_def digits.simps digit_char_def blob_def)
  from Fetch_validation [of cat_edges ?f 8 20] a
  have "argv (hd (snd (Fetch cat_edges ?f 8 20))) = cat_argv 8 20 (cid ?f)"
    by blast
  moreover from Fetch_validation [of cat_edges ?f 6 20] a' e6
  have "copied (hd (snd (Fetch cat_edges ?f 6 20)))
      = fst (CopyN (stdout \<lparr>stdout = ''gh'', stdout_err = None, stderr = []\<rparr>)
               (stdout_err \<lparr>stdout = ''gh'', stdout_err = None, stderr = []\<rparr>) (sint (20::int64)))"
    by blast
  moreover from Fetch_validation [of cat_edges ?f "- 1" "- 5"] b em
  have "Fetch cat_edges ?f (- 1) (- 5) =
      (Inr \<lparr>data = [], fin = ErrExt ''exit status 1''\<rparr>,
       [\<lparr>argv = cat_argv (- 1) (- 5) (cid ?f), copied = [], cont = False,
         err = Some (ErrExt ''exit status 1''), next_off = - 1\<rparr>])"
    by blast
  moreover from Fetch_validation [of cat_edges ?f 9 0] c
  have "\<exists>e. fst (Fetch cat_edges ?f 9 0) = Inl e"
    by blast
  moreover have "fst (Fetch cat_edges ?f 8 20) = Inr \<lparr>data = [], fin = EOF\<rparr>"
    by (simp add: eval_simps cat_edges_def)
  ultimately show ?thesis
    by (simp add: cat_argv_def fmt_d_def digits.simps digit_char_def CopyN_def)
qed

end
